theory Spec2Isabelle
  imports Complex_Main "HOL-Library.AList" "HOL-Library.Sublist"
begin

section \<open>JavaScript values and strings\<close>

text \<open>
  A JavaScript string is modelled as a \<^typ>\<open>string\<close>; one \<^typ>\<open>char\<close> stands for one
  code unit, so \<^term>\<open>length\<close> is \<open>.length\<close>. The argument of \<open>parseRequest\<close> may
  be missing, which JavaScript writes \<open>null\<close> or \<open>undefined\<close>.
\<close>

datatype jsval = JNull | JUndefined | JString string

datatype error = TypeError

text \<open>\<open>requestStr || ''\<close>: every falsy value, the empty string included, gives \<open>''\<close>.\<close>

fun or_empty :: "jsval \<Rightarrow> string" where
  "or_empty (JString s) = (if s = [] then [] else s)"
| "or_empty JNull = []"
| "or_empty JUndefined = []"

text \<open>
  \<open>String.prototype.split(separator)\<close> with a string separator. The scan keeps the
  piece read so far in \<open>acc\<close>; at an occurrence of the separator the piece is closed and
  the scan goes on behind the separator. With the empty separator JavaScript returns the
  code units one by one.
\<close>

function split_from :: "string \<Rightarrow> string \<Rightarrow> string \<Rightarrow> string list" where
  "split_from sep acc s =
     (if s = [] then [acc]
      else if sep \<noteq> [] \<and> prefix sep s then acc # split_from sep [] (drop (length sep) s)
      else split_from sep (acc @ [hd s]) (tl s))"
  by pat_completeness auto
termination
  by (relation "measure (\<lambda>(sep, acc, s). length s)") (auto simp: neq_Nil_conv)

declare split_from.simps [simp del]

definition split_js :: "string \<Rightarrow> string \<Rightarrow> string list" where
  "split_js sep s = (if sep = [] then map (\<lambda>c. [c]) s else split_from sep [] s)"

text \<open>\<open>Array.prototype.join(separator)\<close> on an array of strings.\<close>

fun join :: "string \<Rightarrow> string list \<Rightarrow> string" where
  "join sep [] = []"
| "join sep [x] = x"
| "join sep (x # y # ys) = x @ sep @ join sep (y # ys)"

text \<open>
  \<open>Array.prototype.pop()\<close>: the last element and the array without it;
  \<open>undefined\<close> (here \<open>None\<close>) on the empty array.
\<close>

definition pop :: "'a list \<Rightarrow> ('a \<times> 'a list) option" where
  "pop xs = (if xs = [] then None else Some (last xs, butlast xs))"

text \<open>Lodash's \<open>_.first\<close> and \<open>_.last\<close>: \<open>undefined\<close> on the empty array.\<close>

definition first :: "'a list \<Rightarrow> 'a option" where
  "first xs = (case xs of [] \<Rightarrow> None | x # _ \<Rightarrow> Some x)"

definition last_js :: "'a list \<Rightarrow> 'a option" where
  "last_js xs = (if xs = [] then None else Some (last xs))"

text \<open>
  \<open>String.prototype.substr(start)\<close> with the length left out: a negative start counts
  from the end of the string and is clamped at 0, a start beyond the end gives \<open>''\<close>.
\<close>

definition substr :: "string \<Rightarrow> int \<Rightarrow> string" where
  "substr str start =
     (let size = int (length str);
          intStart = (if start < 0 then max (size + start) 0 else min start size)
      in drop (nat intStart) str)"

section \<open>Node's \<open>path\<close> module on POSIX\<close>

text \<open>
  \<open>path.delimiter\<close> is the separator of the entries of \<open>PATH\<close> (a colon on POSIX, a
  semicolon on Windows); the separator of the segments of a path is \<open>path.sep\<close>.
  \<open>path.relative(from, to)\<close> resolves both paths against the working directory and
  walks from one to the other; it is modelled on the segments of the paths.
\<close>

definition path_delimiter :: string where
  "path_delimiter = '':''"

definition path_sep :: string where
  "path_sep = ''/''"

definition path_segments :: "string \<Rightarrow> string list" where
  "path_segments p = filter (\<lambda>s. s \<noteq> []) (split_js path_sep p)"

definition isAbsolute :: "string \<Rightarrow> bool" where
  "isAbsolute p \<longleftrightarrow> p \<noteq> [] \<and> hd p = CHR ''/''"

text \<open>
  Normalisation drops \<open>.\<close> and lets \<open>..\<close> remove the segment before it; at the root
  \<open>..\<close> stays at the root. \<open>stack\<close> holds the segments kept so far, last one first.
\<close>

fun normalize_segments :: "string list \<Rightarrow> string list \<Rightarrow> string list" where
  "normalize_segments stack [] = rev stack"
| "normalize_segments stack (s # ss) =
     (if s = ''.'' then normalize_segments stack ss
      else if s = ''..'' then normalize_segments (tl stack) ss
      else normalize_segments (s # stack) ss)"

definition path_resolve :: "string \<Rightarrow> string \<Rightarrow> string list" where
  "path_resolve cwd p =
     normalize_segments []
       ((if isAbsolute p then [] else path_segments cwd) @ path_segments p)"

fun common_prefix_length :: "string list \<Rightarrow> string list \<Rightarrow> nat" where
  "common_prefix_length (x # xs) (y # ys) =
     (if x = y then Suc (common_prefix_length xs ys) else 0)"
| "common_prefix_length _ _ = 0"

definition path_relative :: "string \<Rightarrow> string \<Rightarrow> string \<Rightarrow> string" where
  "path_relative cwd from to =
     (let f = path_resolve cwd from;
          t = path_resolve cwd to;
          n = common_prefix_length f t
      in join path_sep (replicate (length f - n) ''..'' @ drop n t))"

section \<open>The request parser (\<open>utils.js\<close>)\<close>

text \<open>The field \<open>file\<close> of the source is \<open>req_file\<close> here; \<open>null\<close> is \<open>None\<close>.\<close>

record parsed_request =
  req_file :: "string option"
  loaders :: "string list"

text \<open>\<open>hasValue = (s) => s && s.length\<close> on a string or \<open>null\<close>.\<close>

fun hasValue :: "string option \<Rightarrow> bool" where
  "hasValue None = False"
| "hasValue (Some s) = (length s \<noteq> 0)"

definition nodeModules :: string where
  "nodeModules = path_delimiter @ ''node_modules'' @ path_delimiter"

definition removeAfter :: "string \<Rightarrow> string \<Rightarrow> string option" where
  "removeAfter delimiter str = first (split_js delimiter str)"

definition removeBefore :: "string \<Rightarrow> string \<Rightarrow> string option" where
  "removeBefore delimiter str = last_js (split_js delimiter str)"

text \<open>
  The regular expression \<open>/[a-z0-9-@]+-loader/\<close>. The class holds the lower-case
  letters, the digits, the hyphen and the at sign. At a start position the class is
  matched greedily and given back one character at a time until \<open>-loader\<close> follows;
  \<open>exec\<close> returns the match at the leftmost start position that has one.
\<close>

definition loader_class :: "char \<Rightarrow> bool" where
  "loader_class c \<longleftrightarrow>
     (97 \<le> (of_char c :: nat) \<and> (of_char c :: nat) \<le> 122) \<or>
     (48 \<le> (of_char c :: nat) \<and> (of_char c :: nat) \<le> 57) \<or>
     c = CHR ''-'' \<or> c = CHR ''@''"

fun match_back :: "nat \<Rightarrow> string \<Rightarrow> string option" where
  "match_back 0 s = None"
| "match_back (Suc k) s =
     (if prefix ''-loader'' (drop (Suc k) s) then Some (take (Suc k + 7) s)
      else match_back k s)"

definition match_here :: "string \<Rightarrow> string option" where
  "match_here s = match_back (length (takeWhile loader_class s)) s"

fun loader_exec :: "string \<Rightarrow> string option" where
  "loader_exec [] = None"
| "loader_exec (c # cs) =
     (case match_here (c # cs) of Some m \<Rightarrow> Some m | None \<Rightarrow> loader_exec cs)"

text \<open>\<open>firstMatch(regex, str)\<close>, with the only regular expression it is called with.\<close>

definition firstMatch :: "string \<Rightarrow> string option" where
  "firstMatch str = (case loader_exec str of Some m \<Rightarrow> Some m | None \<Rightarrow> None)"

text \<open>
  \<open>parseRequest\<close>; \<open>cwd\<close> is \<open>process.cwd()\<close>. A \<open>TypeError\<close> would be raised where
  \<open>split\<close> or \<open>path.relative\<close> were handed \<open>undefined\<close>.
\<close>

definition parseRequest :: "string \<Rightarrow> jsval \<Rightarrow> error + parsed_request" where
  "parseRequest cwd requestStr =
     (let parts = split_js ''!'' (or_empty requestStr) in
      case pop parts of
        None \<Rightarrow> Inl TypeError
      | Some (target, parts) \<Rightarrow>
          (case removeBefore nodeModules target of
             None \<Rightarrow> Inl TypeError
           | Some s1 \<Rightarrow>
               (case removeAfter ''?'' s1 of
                  None \<Rightarrow> Inl TypeError
                | Some s2 \<Rightarrow>
                    (let file = path_relative cwd cwd s2;
                         loaders = map the (filter hasValue (map firstMatch parts))
                     in Inr \<lparr>req_file = (if hasValue (Some file) then Some file else None),
                             loaders = loaders\<rparr>))))"

section \<open>Truncation (\<open>utils.js\<close>)\<close>

text \<open>
  \<open>String.prototype.substr(start, length)\<close>: the length is clamped between 0 and the
  size of the string, and the copy ends at the end of the string at the latest.
\<close>

definition substr_len :: "string \<Rightarrow> int \<Rightarrow> int \<Rightarrow> string" where
  "substr_len str start len =
     (let size = int (length str);
          intStart = (if start < 0 then max (size + start) 0 else min start size);
          intLength = min (max len 0) size;
          intEnd = min (intStart + intLength) size
      in take (nat (intEnd - intStart)) (drop (nat intStart) str))"

definition ellipsis :: "string \<Rightarrow> int \<Rightarrow> string" where
  "ellipsis str n =
     (if int (length str) \<le> n - 3 then str
      else substr_len str 0 (n - 1) @ ''...'')"

definition ellipsisLeft :: "string \<Rightarrow> int \<Rightarrow> string" where
  "ellipsisLeft str n =
     (if int (length str) \<le> n - 3 then str
      else ''...'' @ substr str (int (length str) - n - 1))"

section \<open>External libraries\<close>

text \<open>
  A number as \<open>formatStats\<close> computes it: a quotient of two non-negative integers,
  where JavaScript gives \<open>NaN\<close> for \<open>0 / 0\<close> and \<open>Infinity\<close> for a positive number
  over \<open>0\<close>. Finite quotients are kept exact; the rounding to a double is not modelled.
\<close>

datatype jsnum = Num rat | NaN | Infinity

definition js_div :: "nat \<Rightarrow> nat \<Rightarrow> jsnum" where
  "js_div a b =
     (if b = 0 then (if a = 0 then NaN else Infinity) else Num (of_nat a / of_nat b))"

text \<open>A cell of the array handed to \<open>table\<close>: a string or a number.\<close>

datatype cell = Text string | Count nat

text \<open>The fields \<open>count\<close> and \<open>time\<close> of a ProfileRecord.\<close>

record stat =
  count :: nat
  time :: "nat \<times> nat"

text \<open>An object is an association list: \<open>Object.keys\<close> lists the keys in insertion order.\<close>

type_synonym all_stats = "(string \<times> (string \<times> stat) list) list"

text \<open>
  The functions the source imports and this repository does not define are parameters:
  the styles of \<open>chalk\<close> (\<open>chalk_prop\<close> is the property lookup \<open>chalk[color]\<close>),
  \<open>figures\<close>, Lodash's \<open>startCase\<close>, \<open>table\<close>, \<open>pretty-time\<close> (with its optional
  smallest unit) and \<open>process.cwd()\<close>. Two modules of the repository are not among the
  sources and are parameters as well: \<open>getDescription\<close> of \<open>./description\<close>, and
  \<open>getStats\<close> of \<open>./profile\<close>, given as a function of the requests the accumulator
  has received through \<open>onRequest\<close>.
\<close>

record ext =
  chalk_white :: "string \<Rightarrow> string"
  chalk_blue :: "string \<Rightarrow> string"
  chalk_bold :: "string \<Rightarrow> string"
  chalk_hex :: "string \<Rightarrow> string \<Rightarrow> string"
  chalk_prop :: "string \<Rightarrow> (string \<Rightarrow> string) option"
  chalk_keyword :: "string \<Rightarrow> string \<Rightarrow> string"
  figures :: "string \<Rightarrow> string"
  startCase :: "string \<Rightarrow> string"
  table :: "cell list list \<Rightarrow> string"
  prettyTime :: "jsnum \<times> jsnum \<Rightarrow> string option \<Rightarrow> string"
  process_cwd :: string
  getDescription :: "string \<Rightarrow> string \<Rightarrow> string"
  getStats :: "parsed_request list \<Rightarrow> all_stats"

section \<open>The progress bar (\<open>utils.js\<close>)\<close>

definition BAR_LENGTH :: nat where
  "BAR_LENGTH = 25"

text \<open>The block glyph U+2588, written as its UTF-8 bytes; it is only concatenated.\<close>

definition BLOCK_CHAR :: string where
  "BLOCK_CHAR = [CHR 0xE2, CHR 0x96, CHR 0x88]"

definition BLOCK_CHAR2 :: string where
  "BLOCK_CHAR2 = [CHR 0xE2, CHR 0x96, CHR 0x88]"

text \<open>\<open>NEXT = chalk.blue(figures(' > '))\<close>, the glyph being U+203A.\<close>

definition NEXT :: "ext \<Rightarrow> string" where
  "NEXT L = chalk_blue L (figures L [CHR '' '', CHR 0xE2, CHR 0x80, CHR 0xBA, CHR '' ''])"

definition colorize :: "ext \<Rightarrow> string \<Rightarrow> string \<Rightarrow> string" where
  "colorize L color =
     (if (case color of [] \<Rightarrow> False | c # _ \<Rightarrow> c = CHR ''#'') then chalk_hex L color
      else (case chalk_prop L color of Some style \<Rightarrow> style | None \<Rightarrow> chalk_keyword L color))"

text \<open>\<open>w = progress * (BAR_LENGTH / 100)\<close>; the factor \<open>0.25\<close> is exact in a double.\<close>

definition bar_width :: "int \<Rightarrow> rat" where
  "bar_width progress = of_int progress * (of_nat BAR_LENGTH / 100)"

definition renderBar :: "ext \<Rightarrow> int \<Rightarrow> string \<Rightarrow> string" where
  "renderBar L progress color =
     (let w = bar_width progress;
          bg = chalk_white L BLOCK_CHAR;
          fg = colorize L color BLOCK_CHAR2
      in concat (map (\<lambda>i. if of_nat i < w then fg else bg) [0..<BAR_LENGTH]))"

text \<open>
  The cells of the bar before they are styled: \<open>True\<close> where \<open>renderBar\<close> takes the
  foreground cell (\<open>i < w\<close>), and the number of such cells.
\<close>

definition bar_cells :: "int \<Rightarrow> bool list" where
  "bar_cells progress = map (\<lambda>i. of_nat i < bar_width progress) [0..<BAR_LENGTH]"

definition foreground_count :: "int \<Rightarrow> nat" where
  "foreground_count progress = length (filter (\<lambda>b. b) (bar_cells progress))"

section \<open>Formatting a request (\<open>utils.js\<close>)\<close>

text \<open>A template literal writes \<open>null\<close> as the text \<open>null\<close>.\<close>

fun template :: "string option \<Rightarrow> string" where
  "template None = ''null''"
| "template (Some s) = s"

definition formatRequest :: "ext \<Rightarrow> parsed_request \<Rightarrow> string" where
  "formatRequest L request =
     (let joined = join (NEXT L) (loaders request) in
      if length joined = 0
      then (case req_file request of Some f \<Rightarrow> (if f = [] then [] else f) | None \<Rightarrow> [])
      else joined @ NEXT L @ template (req_file request))"

section \<open>Formatting the statistics (\<open>utils.js\<close>)\<close>

definition time_cell :: "ext \<Rightarrow> nat \<times> nat \<Rightarrow> cell" where
  "time_cell L t = Text (prettyTime L (Num (of_nat (fst t)), Num (of_nat (snd t))) None)"

text \<open>The row pushed for one item of a category.\<close>

definition item_row :: "ext \<Rightarrow> string \<Rightarrow> string \<Rightarrow> stat \<Rightarrow> cell list" where
  "item_row L category item st =
     (let description = getDescription L category item;
          avgTime = (js_div (fst (time st)) (count st), js_div (snd (time st)) (count st))
      in [Text item,
          (if count st \<noteq> 0 then Count (count st) else Text ''-''),
          time_cell L (time st),
          Text (prettyTime L avgTime None),
          Text description])"

text \<open>
  One round of the inner \<open>forEach\<close>, on the variables \<open>totalRequests\<close>, \<open>totalTime\<close>
  and \<open>data\<close> of the source.
\<close>

fun add_item ::
  "ext \<Rightarrow> string \<Rightarrow> nat \<times> (nat \<times> nat) \<times> cell list list \<Rightarrow> string \<times> stat \<Rightarrow>
   nat \<times> (nat \<times> nat) \<times> cell list list" where
  "add_item L category (totalRequests, totalTime, data) (item, st) =
     (totalRequests + count st,
      (fst totalTime + fst (time st), snd totalTime + snd (time st)),
      data @ [item_row L category item st])"

text \<open>The array \<open>data\<close> that is handed to \<open>table\<close> for one category.\<close>

definition category_data :: "ext \<Rightarrow> string \<Rightarrow> (string \<times> stat) list \<Rightarrow> cell list list" where
  "category_data L category stats =
     (case foldl (add_item L category)
             (0, (0, 0),
              [[Text (startCase L category), Text ''Requests'', Text ''Time'',
                Text ''Time/Request'', Text ''Description'']])
             stats of
        (totalRequests, totalTime, data) \<Rightarrow>
          data @ [[Text ''Total'', Count totalRequests, time_cell L totalTime,
                   Text [], Text []]])"

definition formatStats :: "ext \<Rightarrow> all_stats \<Rightarrow> string" where
  "formatStats L allStats =
     join [CHR 0x0A, CHR 0x0A]
       (concat (map (\<lambda>(category, stats).
                  [''Stats by '' @ chalk_bold L (startCase L category),
                   table L (category_data L category stats)])
                allStats))"

section \<open>The shared state and the plugin\<close>

text \<open>
  The options of one plugin instance, after the defaults are merged in. \<open>done_cb\<close> tells
  whether \<open>options.done\<close> is a function; \<open>profile\<close>, \<open>compiledIn\<close> and \<open>minimal\<close> are
  read for their truth value only. The stream and the \<open>logUpdate\<close> override select
  where output goes and are not modelled.
\<close>

record options =
  name :: string
  color :: string
  profile :: bool
  compiledIn :: bool
  done_cb :: bool
  minimal :: bool

text \<open>
  \<open>process.hrtime()\<close> returns seconds and nanoseconds; the reading of the clock is an
  argument of every function that asks for it. \<open>process.hrtime(start)\<close> returns the
  time elapsed since \<open>start\<close>, and the clock itself when \<open>start\<close> is \<open>undefined\<close>.
\<close>

type_synonym hrtime = "int \<times> int"

fun hrtime_since :: "hrtime \<Rightarrow> hrtime option \<Rightarrow> hrtime" where
  "hrtime_since now None = now"
| "hrtime_since (s, ns) (Some (s0, ns0)) =
     (if ns - ns0 < 0 then (s - s0 - 1, ns - ns0 + 1000000000) else (s - s0, ns - ns0))"

definition prettyHrtime :: "ext \<Rightarrow> hrtime \<Rightarrow> string option \<Rightarrow> string" where
  "prettyHrtime L t smallest = prettyTime L (Num (of_int (fst t)), Num (of_int (snd t))) smallest"

subsection \<open>State objects\<close>

text \<open>
  \<open>this.state\<close> is \<open>sharedState[this.options.name]\<close>, and \<open>sharedState\<close> is a plain
  object \<open>{}\<close>. Under most names the lookup finds an own property, a slot that a
  constructor has made, or nothing. Under a name that a plain object inherits from
  \<open>Object.prototype\<close> it finds the inherited object when there is no own property: a
  function such as \<open>Object\<close> for \<open>constructor\<close>, and \<open>Object.prototype\<close> itself for
  \<open>__proto__\<close>.

  \<open>props\<close> holds the properties that \<open>updateProgress\<close> and the \<open>done\<close> hook write on the
  object they find; a property that the object does not have is \<open>None\<close>. A slot has two
  more, which only the constructor writes: \<open>color\<close>, and \<open>profile\<close>, which is \<open>null\<close>
  (here \<open>None\<close>) or the accumulator of \<open>./profile\<close>, kept as the list of the requests it
  has received. The statistics object of the bundler is opaque and stands as a number.
\<close>

type_synonym webpack_stats = nat

record props =
  isRunning :: "bool option"
  details :: "string list option"
  progress :: "int option"
  msg :: "string option"
  request :: "parsed_request option"
  start :: "hrtime option"
  stats :: "webpack_stats option"

record slot = props +
  slot_color :: string
  slot_profile :: "parsed_request list option"

text \<open>
  The names that every plain object inherits from \<open>Object.prototype\<close>. A plugin named
  \<open>__proto__\<close> writes the seven properties of \<open>props\<close> on \<open>Object.prototype\<close> itself;
  the reads of \<open>isRunning\<close> and \<open>start\<close> below find them there, while a lookup of
  \<open>sharedState\<close> under one of those seven names is taken to find no inherited value.
\<close>

definition prototype_names :: "string list" where
  "prototype_names =
     [''constructor'', ''__defineGetter__'', ''__defineSetter__'', ''hasOwnProperty'',
      ''__lookupGetter__'', ''__lookupSetter__'', ''isPrototypeOf'',
      ''propertyIsEnumerable'', ''toString'', ''valueOf'', ''__proto__'',
      ''toLocaleString'']"

text \<open>
  The shared state: the own properties of \<open>sharedState\<close> in the order of \<open>Object.keys\<close>,
  and what has been written on the inherited objects. An inherited object that is not
  listed has none of the properties.
\<close>

record shared =
  slots :: "(string \<times> slot) list"
  inherited :: "(string \<times> props) list"

definition no_props :: props where
  "no_props =
     \<lparr>isRunning = None, details = None, progress = None, msg = None, request = None,
      start = None, stats = None\<rparr>"

text \<open>\<open>const sharedState = {}\<close>\<close>

definition sharedState0 :: shared where
  "sharedState0 = \<lparr>slots = [], inherited = []\<rparr>"

definition inherited_object :: "shared \<Rightarrow> string \<Rightarrow> props" where
  "inherited_object sharedState n =
     (case map_of (inherited sharedState) n of Some obj \<Rightarrow> obj | None \<Rightarrow> no_props)"

definition object_prototype :: "shared \<Rightarrow> props" where
  "object_prototype sharedState = inherited_object sharedState ''__proto__''"

text \<open>
  Reading \<open>isRunning\<close> (for its truth value) and \<open>start\<close> from a state object: the own
  property, and without one the property of \<open>Object.prototype\<close>, which every state
  object has on its prototype chain.
\<close>

definition get_isRunning :: "shared \<Rightarrow> 'z props_scheme \<Rightarrow> bool" where
  "get_isRunning sharedState st =
     (case isRunning st of
        Some b \<Rightarrow> b
      | None \<Rightarrow> (case isRunning (object_prototype sharedState) of Some b \<Rightarrow> b | None \<Rightarrow> False))"

definition get_start :: "shared \<Rightarrow> 'z props_scheme \<Rightarrow> hrtime option" where
  "get_start sharedState st =
     (case start st of Some t \<Rightarrow> Some t | None \<Rightarrow> start (object_prototype sharedState))"

text \<open>
  What a call does to the outside: the two notifications of \<open>consola\<close>,
  \<open>logUpdate.clear()\<close>, a write to the stream, the call of the user's \<open>done\<close> callback,
  and the call of the throttled \<open>_render\<close>.
\<close>

datatype effect =
    ConsolaInfo string
  | ConsolaSuccess string
  | LogUpdateClear
  | StreamWrite string
  | DoneCallback
  | Render

text \<open>
  A call returns the shared state it leaves behind, the effects it had, and the error it
  raised, if any: what was assigned before a \<open>throw\<close> stays assigned.
\<close>

type_synonym outcome = "shared \<times> effect list \<times> error option"

subsection \<open>The plugin\<close>

text \<open>\<open>hasRunning\<close> looks at the own properties of \<open>sharedState\<close> only.\<close>

definition hasRunning :: "shared \<Rightarrow> slot option" where
  "hasRunning sharedState =
     List.find (\<lambda>s. get_isRunning sharedState s)
       (map (\<lambda>e. the (map_of (slots sharedState) e)) (map fst (slots sharedState)))"

text \<open>
  The constructor makes a slot when \<open>this.state\<close> is falsy: when the name has no own
  property and is not inherited either.
\<close>

definition construct :: "options \<Rightarrow> shared \<Rightarrow> shared" where
  "construct opts sharedState =
     (if map_of (slots sharedState) (name opts) \<noteq> None \<or> name opts \<in> set prototype_names
      then sharedState
      else sharedState
             \<lparr>slots :=
                AList.update (name opts)
                  \<lparr>isRunning = Some False, details = None, progress = None, msg = None,
                   request = None, start = None, stats = None,
                   slot_color = color opts,
                   slot_profile = (if profile opts then Some [] else None)\<rparr>
                  (slots sharedState)\<rparr>)"

text \<open>\<open>details[i]\<close>: \<open>undefined\<close> beyond the end of the array.\<close>

definition nth_js :: "string list \<Rightarrow> nat \<Rightarrow> jsval" where
  "nth_js xs i = (if i < length xs then JString (xs ! i) else JUndefined)"

text \<open>The \<open>Object.assign\<close> of \<open>updateProgress\<close>, on a slot or on an inherited object.\<close>

definition assign_progress ::
  "int \<Rightarrow> string \<Rightarrow> string list \<Rightarrow> parsed_request \<Rightarrow> 'z props_scheme \<Rightarrow> 'z props_scheme" where
  "assign_progress prog message dets req st =
     st\<lparr>details := Some dets,
        progress := Some prog,
        msg := Some (if prog < 100 \<and> message \<noteq> [] then message else []),
        request := Some req,
        isRunning := Some (prog < 100)\<rparr>"

text \<open>
  The two branches after \<open>Object.assign\<close> in \<open>updateProgress\<close>: the object they leave
  and the effects they have. \<open>since\<close> is what \<open>this.state.start\<close> reads.
\<close>

definition transition ::
  "ext \<Rightarrow> options \<Rightarrow> hrtime \<Rightarrow> hrtime option \<Rightarrow> bool \<Rightarrow> bool \<Rightarrow> 'z props_scheme \<Rightarrow>
   'z props_scheme \<times> effect list" where
  "transition L opts now since wasRunning running st =
     (if \<not> wasRunning \<and> running then
        (st\<lparr>stats := None, start := Some now\<rparr>,
         (if minimal opts then [ConsolaInfo (''Compiling '' @ name opts)] else []))
      else if wasRunning \<and> \<not> running then
        (let time = hrtime_since now since in
         (st\<lparr>start := None\<rparr>,
          (if minimal opts
           then [ConsolaSuccess (''Compiled '' @ name opts @ '' in '' @ prettyHrtime L time None)]
           else LogUpdateClear #
                (if compiledIn opts
                 then [ConsolaSuccess
                         (name opts @ '' compiled in '' @ prettyHrtime L time (Some ''ms''))]
                 else []))))
      else (st, []))"

text \<open>
  \<open>updateProgress\<close> of the plugin with the options \<open>opts\<close>. The percentage is an exact
  rational here and a double in the source; for 0, 0.3, 0.5, 0.6 and 1 the product with
  100 has the same floor in both. An inherited object has no \<open>profile\<close>, so with
  profiling on the call on it ends in a \<open>TypeError\<close>.
\<close>

definition updateProgress ::
  "ext \<Rightarrow> options \<Rightarrow> hrtime \<Rightarrow> rat \<Rightarrow> string \<Rightarrow> string list \<Rightarrow> shared \<Rightarrow> outcome" where
  "updateProgress L opts now percent message dets sharedState =
     (let prog = \<lfloor>percent * 100\<rfloor>;
          running = (prog < 100)
      in case map_of (slots sharedState) (name opts) of
           Some st \<Rightarrow>
             (let wasRunning = get_isRunning sharedState st in
              case parseRequest (process_cwd L) (nth_js dets 2) of
                Inl e \<Rightarrow> (sharedState, [], Some e)
              | Inr req \<Rightarrow>
                  (let st1 = assign_progress prog message dets req st;
                       (st2, effs) =
                          transition L opts now (get_start sharedState st1) wasRunning running st1
                   in if profile opts then
                        (case slot_profile st2 of
                           None \<Rightarrow>
                             (sharedState\<lparr>slots := AList.update (name opts) st2 (slots sharedState)\<rparr>,
                              effs, Some TypeError)
                         | Some reqs \<Rightarrow>
                             (sharedState
                                \<lparr>slots := AList.update (name opts)
                                            (st2\<lparr>slot_profile := Some (reqs @ [req])\<rparr>)
                                            (slots sharedState)\<rparr>,
                              effs @ [Render], None))
                      else (sharedState\<lparr>slots := AList.update (name opts) st2 (slots sharedState)\<rparr>,
                            effs @ [Render], None)))
         | None \<Rightarrow>
             if name opts \<in> set prototype_names then
               (let obj = inherited_object sharedState (name opts);
                    wasRunning = get_isRunning sharedState obj in
                case parseRequest (process_cwd L) (nth_js dets 2) of
                  Inl e \<Rightarrow> (sharedState, [], Some e)
                | Inr req \<Rightarrow>
                    (let obj1 = assign_progress prog message dets req obj;
                         (obj2, effs) =
                            transition L opts now (get_start sharedState obj1) wasRunning running obj1;
                         sharedState' =
                            sharedState
                              \<lparr>inherited := AList.update (name opts) obj2 (inherited sharedState)\<rparr>
                     in if profile opts then (sharedState', effs, Some TypeError)
                        else (sharedState', effs @ [Render], None)))
             else (sharedState, [], Some TypeError))"

text \<open>The method \<open>done\<close> of the plugin.\<close>

definition plugin_done :: "ext \<Rightarrow> options \<Rightarrow> shared \<Rightarrow> effect list \<times> error option" where
  "plugin_done L opts sharedState =
     (let written =
            (if profile opts then
               (case map_of (slots sharedState) (name opts) of
                  None \<Rightarrow> Inl TypeError
                | Some st \<Rightarrow>
                    (case slot_profile st of
                       None \<Rightarrow> Inl TypeError
                     | Some reqs \<Rightarrow>
                         Inr [StreamWrite
                                ([CHR 0x0A] @ formatStats L (getStats L reqs) @ [CHR 0x0A])]))
             else Inr [])
      in case written of
           Inl e \<Rightarrow> ([], Some e)
         | Inr effs \<Rightarrow> (if done_cb opts then (effs @ [DoneCallback], None) else (effs, None)))"

text \<open>
  \<open>this.state.stats = stats\<close>, on the slot or on the inherited object; \<open>None\<close> when
  \<open>this.state\<close> is \<open>undefined\<close> and the assignment raises.
\<close>

definition set_stats :: "string \<Rightarrow> webpack_stats \<Rightarrow> shared \<Rightarrow> shared option" where
  "set_stats n webpackStats sharedState =
     (case map_of (slots sharedState) n of
        Some st \<Rightarrow>
          Some (sharedState
                  \<lparr>slots := AList.update n (st\<lparr>stats := Some webpackStats\<rparr>) (slots sharedState)\<rparr>)
      | None \<Rightarrow>
          if n \<in> set prototype_names then
            Some (sharedState
                    \<lparr>inherited :=
                       AList.update n ((inherited_object sharedState n)\<lparr>stats := Some webpackStats\<rparr>)
                         (inherited sharedState)\<rparr>)
          else None)"

text \<open>The function \<open>hook\<close> that \<open>apply\<close> registers for the bundler's \<open>done\<close> event.\<close>

definition hook :: "ext \<Rightarrow> options \<Rightarrow> webpack_stats \<Rightarrow> shared \<Rightarrow> outcome" where
  "hook L opts webpackStats sharedState =
     (case set_stats (name opts) webpackStats sharedState of
        None \<Rightarrow> (sharedState, [], Some TypeError)
      | Some sharedState' \<Rightarrow>
          if hasRunning sharedState' = None then
            (case plugin_done L opts sharedState' of
               (effs, err) \<Rightarrow> (sharedState', LogUpdateClear # effs, err))
          else (sharedState', [], None))"

subsection \<open>Sequences of progress events\<close>

text \<open>
  A progress event is a call of the handler of one plugin instance, with the reading of
  the clock at that moment. \<open>steps\<close> lists the outcome of every call in turn and stops
  behind a call that raises.
\<close>

datatype event = Progress options hrtime rat string "string list"

fun steps :: "ext \<Rightarrow> event list \<Rightarrow> shared \<Rightarrow> outcome list" where
  "steps L [] sharedState = []"
| "steps L (Progress opts now percent message dets # evs) sharedState =
     (case updateProgress L opts now percent message dets sharedState of
        (sharedState', effs, None) \<Rightarrow> (sharedState', effs, None) # steps L evs sharedState'
      | (sharedState', effs, Some e) \<Rightarrow> [(sharedState', effs, Some e)])"

definition state_after :: "ext \<Rightarrow> event list \<Rightarrow> shared \<Rightarrow> shared" where
  "state_after L evs sharedState = last (sharedState # map fst (steps L evs sharedState))"

definition effects_of :: "outcome list \<Rightarrow> effect list" where
  "effects_of outs = concat (map (\<lambda>out. fst (snd out)) outs)"

fun is_started :: "effect \<Rightarrow> bool" where
  "is_started (ConsolaInfo _) = True"
| "is_started _ = False"

fun is_finished :: "effect \<Rightarrow> bool" where
  "is_finished (ConsolaSuccess _) = True"
| "is_finished _ = False"

text \<open>
  The truth value of \<open>this.state.isRunning\<close> for the plugin of the name \<open>n\<close>; \<open>None\<close> when
  \<open>this.state\<close> is \<open>undefined\<close>.
\<close>

definition running_in :: "string \<Rightarrow> shared \<Rightarrow> bool option" where
  "running_in n sharedState =
     (case map_of (slots sharedState) n of
        Some st \<Rightarrow> Some (get_isRunning sharedState st)
      | None \<Rightarrow>
          if n \<in> set prototype_names
          then Some (get_isRunning sharedState (inherited_object sharedState n))
          else None)"

section \<open>Auxiliary definitions\<close>

text \<open>The index at which \<open>substr\<close> starts to copy.\<close>

definition substr_index :: "string \<Rightarrow> int \<Rightarrow> nat" where
  "substr_index str i =
     nat (if i < 0 then max (int (length str) + i) 0 else min i (int (length str)))"

text \<open>
  One environment, on which the functions are evaluated at concrete inputs: a terminal
  with colours, where a style wraps its text in the escape sequences that switch the
  style on and off, and plain stand-ins for the other libraries.
\<close>

definition sgr :: "string \<Rightarrow> string \<Rightarrow> string \<Rightarrow> string" where
  "sgr on off s = [CHR 0x1B] @ ''['' @ on @ ''m'' @ s @ [CHR 0x1B] @ ''['' @ off @ ''m''"

fun cell_text :: "cell \<Rightarrow> string" where
  "cell_text (Text s) = s"
| "cell_text (Count n) = ''#''"

fun number_text :: "jsnum \<Rightarrow> string" where
  "number_text (Num q) = ''#''"
| "number_text NaN = ''NaN''"
| "number_text Infinity = ''Infinity''"

definition ansi_terminal :: ext where
  "ansi_terminal =
     \<lparr>chalk_white = sgr ''37'' ''39'',
      chalk_blue = sgr ''34'' ''39'',
      chalk_bold = sgr ''1'' ''22'',
      chalk_hex = (\<lambda>c. sgr (''38;2;'' @ c) ''39''),
      chalk_prop = (\<lambda>c. if c = ''green'' then Some (sgr ''32'' ''39'')
                         else if c = ''white'' then Some (sgr ''37'' ''39'') else None),
      chalk_keyword = (\<lambda>c. sgr (''38;5;'' @ c) ''39''),
      figures = (\<lambda>s. s),
      startCase = (\<lambda>s. s),
      table = (\<lambda>rows. concat (map (\<lambda>row. join '' | '' (map cell_text row) @ [CHR 0x0A]) rows)),
      prettyTime = (\<lambda>t smallest. number_text (fst t) @ ''s '' @ number_text (snd t) @ ''ns''),
      process_cwd = ''/home/user/project'',
      getDescription = (\<lambda>category item. []),
      getStats = (\<lambda>reqs. [])\<rparr>"

text \<open>
  Plugin instances with a \<open>done\<close> callback, \<open>minimal\<close> off and the other options at their
  defaults; the last one is named after a property of \<open>Object.prototype\<close>.
\<close>

definition client_options :: options where
  "client_options =
     \<lparr>name = ''client'', color = ''green'', profile = False, compiledIn = True,
      done_cb = True, minimal = False\<rparr>"

definition server_options :: options where
  "server_options =
     \<lparr>name = ''server'', color = ''orange'', profile = False, compiledIn = True,
      done_cb = True, minimal = False\<rparr>"

definition constructor_options :: options where
  "constructor_options =
     \<lparr>name = ''constructor'', color = ''blue'', profile = False, compiledIn = True,
      done_cb = True, minimal = False\<rparr>"

text \<open>
  The scenario of two bundles, for the plugins \<open>a\<close> and \<open>b\<close>: \<open>a\<close> starts, \<open>b\<close> starts
  and reaches 50%, then \<open>a\<close> reaches 100%.
\<close>

definition two_bundle_events :: "options \<Rightarrow> options \<Rightarrow> event list" where
  "two_bundle_events a b =
     [Progress a (0, 0) 0 ''compiling'' [],
      Progress b (0, 500) 0 ''compiling'' [],
      Progress b (1, 0) (1 / 2) ''building'' [],
      Progress a (2, 0) 1 [] []]"

text \<open>One build of one bundle: the events 0.0, 0.3, 0.6 and 1.0.\<close>

definition lifecycle_events :: "options \<Rightarrow> event list" where
  "lifecycle_events opts =
     [Progress opts (0, 0) 0 ''compiling'' [],
      Progress opts (1, 0) (3 / 10) ''building'' [],
      Progress opts (2, 0) (6 / 10) ''building'' [],
      Progress opts (3, 0) 1 [] []]"

section \<open>The request parser never fails\<close>

lemma split_from_not_Nil: "split_from sep acc s \<noteq> []"
  by (induction sep acc s rule: split_from.induct) (subst split_from.simps, simp)

lemma split_js_not_Nil: "sep \<noteq> [] \<Longrightarrow> split_js sep s \<noteq> []"
  by (simp add: split_js_def split_from_not_Nil)

lemma split_js_Nil: "sep \<noteq> [] \<Longrightarrow> split_js sep [] = [[]]"
  by (simp add: split_js_def split_from.simps)

lemma parseRequest_total: "\<exists>r. parseRequest cwd v = Inr r"
proof -
  obtain target parts where p: "pop (split_js ''!'' (or_empty v)) = Some (target, parts)"
    using split_js_not_Nil [of "''!''" "or_empty v"] by (simp add: pop_def)
  obtain s1 where s1: "removeBefore nodeModules target = Some s1"
    using split_js_not_Nil [of nodeModules target]
    by (simp add: removeBefore_def last_js_def nodeModules_def path_delimiter_def)
  obtain s2 where s2: "removeAfter ''?'' s1 = Some s2"
    using split_js_not_Nil [of "''?''" s1]
    by (cases "split_js ''?'' s1") (simp_all add: removeAfter_def first_def)
  show ?thesis
    by (simp add: parseRequest_def p s1 s2 Let_def)
qed

lemma filtered_loaders_nonempty: "\<forall>l \<in> set (map the (filter hasValue xs)). l \<noteq> []"
proof (induction xs)
  case Nil
  then show ?case by simp
next
  case (Cons x xs)
  then show ?case by (cases x) auto
qed

text \<open>Every loader that the parser returns is a non-empty string.\<close>

lemma parseRequest_loaders_nonempty:
  assumes "parseRequest cwd v = Inr r"
  shows "\<forall>l \<in> set (loaders r). l \<noteq> []"
proof -
  from assms obtain parts where "loaders r = map the (filter hasValue (map firstMatch parts))"
    by (auto simp: parseRequest_def Let_def split: option.splits prod.splits)
  then show ?thesis
    using filtered_loaders_nonempty [of "map firstMatch parts"] by simp
qed

lemma common_prefix_length_same: "common_prefix_length xs xs = length xs"
  by (induction xs) simp_all

lemma path_relative_empty:
  assumes "isAbsolute cwd"
  shows "path_relative cwd cwd [] = []"
proof -
  have "path_segments [] = []"
    by (simp add: path_segments_def split_js_Nil path_sep_def)
  moreover have "\<not> isAbsolute []"
    by (simp add: isAbsolute_def)
  ultimately have "path_resolve cwd [] = path_resolve cwd cwd"
    using assms by (simp add: path_resolve_def)
  then show ?thesis
    by (simp add: path_relative_def Let_def common_prefix_length_same)
qed

text \<open>
  Claim C7. For a missing input, that is \<open>null\<close>, \<open>undefined\<close> or the empty string,
  \<open>parseRequest\<close> raises no error and returns exactly \<open>{file: null, loaders: []}\<close>.
  The working directory is an absolute path, as \<open>process.cwd()\<close> always is.
\<close>

theorem parseRequest_missing:
  assumes "isAbsolute cwd"
  shows "parseRequest cwd JNull = Inr \<lparr>req_file = None, loaders = []\<rparr>
       \<and> parseRequest cwd JUndefined = Inr \<lparr>req_file = None, loaders = []\<rparr>
       \<and> parseRequest cwd (JString []) = Inr \<lparr>req_file = None, loaders = []\<rparr>"
proof -
  have "parseRequest cwd v = Inr \<lparr>req_file = None, loaders = []\<rparr>" if "or_empty v = []" for v
  proof -
    have 1: "pop (split_js ''!'' (or_empty v)) = Some ([], [])"
      by (simp add: that split_js_Nil pop_def)
    have 2: "removeBefore nodeModules [] = Some []"
      by (simp add: removeBefore_def last_js_def split_js_Nil nodeModules_def path_delimiter_def)
    have 3: "removeAfter ''?'' [] = Some []"
      by (simp add: removeAfter_def first_def split_js_Nil)
    show ?thesis
      by (simp add: parseRequest_def 1 2 3 Let_def path_relative_empty [OF assms])
  qed
  then show ?thesis by simp
qed

theorem parseRequest_missing_witness:
  "isAbsolute ''/home/user/project''
   \<and> parseRequest ''/home/user/project'' JNull = Inr \<lparr>req_file = None, loaders = []\<rparr>
   \<and> parseRequest ''/home/user/project'' JUndefined = Inr \<lparr>req_file = None, loaders = []\<rparr>
   \<and> parseRequest ''/home/user/project'' (JString []) = Inr \<lparr>req_file = None, loaders = []\<rparr>"
proof -
  have h: "isAbsolute ''/home/user/project''" by (simp add: isAbsolute_def)
  show ?thesis using h parseRequest_missing [OF h] by simp
qed

section \<open>Formatting a request whose file is \<open>null\<close>\<close>

lemma join_not_Nil:
  assumes "xs \<noteq> []" and "\<forall>x \<in> set xs. x \<noteq> []"
  shows "join sep xs \<noteq> []"
proof (cases xs)
  case Nil
  with assms show ?thesis by simp
next
  case (Cons x ys)
  with assms show ?thesis by (cases ys) auto
qed

lemma formatRequest_nonempty_loaders:
  assumes "loaders r \<noteq> []" and "\<forall>l \<in> set (loaders r). l \<noteq> []" and "req_file r = None"
  shows "formatRequest L r = join (NEXT L) (loaders r) @ NEXT L @ ''null''"
  using join_not_Nil [OF assms(1,2), of "NEXT L"] assms(3)
  by (simp add: formatRequest_def Let_def)

lemma parse_trailing_bang:
  "parseRequest ''/home/user/project'' (JString ''css-loader!sass-loader!'')
     = Inr \<lparr>req_file = None, loaders = [''css-loader'', ''sass-loader'']\<rparr>"
  by code_simp

text \<open>
  Claim C9. For a ParsedRequest, that is a value the request parser returns, with a
  non-empty list of loaders and \<open>file = null\<close>, \<open>formatRequest\<close> returns the loaders
  joined by the separator, then the separator, then the four characters \<open>null\<close>: the
  template literal writes the missing file as text.
\<close>

theorem formatRequest_null_file:
  assumes "parseRequest cwd v = Inr r" and "loaders r \<noteq> []" and "req_file r = None"
  shows "formatRequest L r = join (NEXT L) (loaders r) @ NEXT L @ ''null''"
  using formatRequest_nonempty_loaders [OF assms(2) parseRequest_loaders_nonempty [OF assms(1)] assms(3)] .

theorem formatRequest_null_file_witness:
  "parseRequest ''/home/user/project'' (JString ''css-loader!sass-loader!'')
     = Inr \<lparr>req_file = None, loaders = [''css-loader'', ''sass-loader'']\<rparr>
   \<and> formatRequest ansi_terminal \<lparr>req_file = None, loaders = [''css-loader'', ''sass-loader'']\<rparr>
       = ''css-loader'' @ NEXT ansi_terminal @ ''sass-loader'' @ NEXT ansi_terminal @ ''null''"
  using parse_trailing_bang formatRequest_null_file [OF parse_trailing_bang, of ansi_terminal]
  by simp

section \<open>Truncation on the left\<close>

lemma substr_drop: "substr str i = drop (substr_index str i) str"
  by (simp add: substr_def substr_index_def Let_def)

text \<open>
  Where the string is at least \<open>n + 1\<close> characters long, \<open>ellipsisLeft\<close> keeps its last
  \<open>n + 1\<close> characters behind the dots, and a string of at most \<open>n - 3\<close> characters is
  returned as it is.
\<close>

lemma ellipsisLeft_long:
  assumes "- 1 \<le> n" and "n + 1 \<le> int (length str)"
  shows "ellipsisLeft str n = ''...'' @ drop (length str - nat (n + 1)) str"
    and "int (length (ellipsisLeft str n)) = n + 4"
proof -
  from assms have "substr_index str (int (length str) - n - 1) = length str - nat (n + 1)"
    by (auto simp: substr_index_def max_def min_def)
  with assms show e: "ellipsisLeft str n = ''...'' @ drop (length str - nat (n + 1)) str"
    by (simp add: ellipsisLeft_def substr_drop)
  from assms show "int (length (ellipsisLeft str n)) = n + 4"
    unfolding e by (simp; linarith)
qed

lemma ellipsisLeft_short: "int (length str) \<le> n - 3 \<Longrightarrow> ellipsisLeft str n = str"
  by (simp add: ellipsisLeft_def)

text \<open>
  Claim C10. For a string longer than \<open>n - 3\<close>, \<open>ellipsisLeft(str, n)\<close> should return
  \<open>...\<close> and the last \<open>n + 1\<close> characters of the string. For the string \<open>abcdefgh\<close> and
  the width 10 the string is longer than \<open>n - 3 = 7\<close> and all of it lies among its last
  11 characters. The start index \<open>str.length - n - 1\<close> is \<open>-3\<close> there, \<open>substr\<close> counts
  a negative index from the end, and only \<open>fgh\<close> is left behind the dots. The sibling
  \<open>ellipsis\<close> keeps the whole string at the same input.
\<close>

theorem ellipsisLeft_cuts_fitting_string:
  "int (length ''abcdefgh'') > 10 - 3
   \<and> ellipsisLeft ''abcdefgh'' 10 = ''...fgh''
   \<and> ellipsisLeft ''abcdefgh'' 10 \<noteq> ''...'' @ ''abcdefgh''
   \<and> int (length (ellipsisLeft ''abcdefgh'' 10)) \<noteq> 10 + 4
   \<and> ellipsis ''abcdefgh'' 10 = ''abcdefgh...''"
  by (simp add: ellipsisLeft_def substr_def ellipsis_def substr_len_def)

section \<open>The progress bar\<close>

lemma map_if_less:
  "map (\<lambda>i. if i < k then a else b) [0..<n] = replicate (min k n) a @ replicate (n - k) b"
proof (induction n)
  case 0
  then show ?case by simp
next
  case (Suc n)
  show ?case
  proof (cases "n < k")
    case True
    then have "min k (Suc n) = Suc (min k n)" and "Suc n - k = n - k" by simp_all
    with Suc True show ?thesis by (simp add: replicate_append_same)
  next
    case False
    then have "Suc n - k = Suc (n - k)" by simp
    with Suc False show ?thesis by (simp add: min_def replicate_append_same)
  qed
qed

text \<open>Cell \<open>i\<close> is a foreground cell exactly when \<open>i\<close> is below the ceiling of the width.\<close>

lemma less_bar_width: "of_nat i < bar_width p \<longleftrightarrow> i < nat \<lceil>of_int p * 25 / 100 :: rat\<rceil>"
proof -
  have "of_nat i < bar_width p \<longleftrightarrow> (of_int (int i) :: rat) < of_int p * 25 / 100"
    by (simp add: bar_width_def BAR_LENGTH_def)
  also have "\<dots> \<longleftrightarrow> int i < \<lceil>of_int p * 25 / 100 :: rat\<rceil>"
    by (simp only: less_ceiling_iff)
  also have "\<dots> \<longleftrightarrow> i < nat \<lceil>of_int p * 25 / 100 :: rat\<rceil>"
    by linarith
  finally show ?thesis .
qed

lemma ceiling_quarter: "\<lceil>of_int p * 25 / 100 :: rat\<rceil> = (p + 3) div 4"
proof -
  have "(of_int p :: rat) * 25 / 100 = of_int p / of_int 4" by simp
  then have "\<lceil>of_int p * 25 / 100 :: rat\<rceil> = - (- p div 4)"
    by (simp only: ceiling_divide_eq_div)
  then show ?thesis by linarith
qed

lemma ceiling_quarter_le:
  assumes "p \<le> 100"
  shows "nat \<lceil>of_int p * 25 / 100 :: rat\<rceil> \<le> 25"
proof -
  have "(of_int p :: rat) * 25 / 100 \<le> 25" using assms by simp
  then have "\<lceil>of_int p * 25 / 100 :: rat\<rceil> \<le> 25" by (simp only: ceiling_le_iff of_int_numeral)
  then show ?thesis by linarith
qed

text \<open>
  Claim C4, amended. For every integer percent from 0 to 100 and every colour,
  \<open>renderBar\<close> returns 25 cells, all of the block glyph: the leading
  \<open>ceil(percent * 25 / 100)\<close> cells in the foreground colour and the others in white.
  A cell \<open>i\<close> is a foreground cell when \<open>i < percent * 25 / 100\<close>, so a started cell
  counts: the number of foreground cells is the ceiling, not the floor.
\<close>

theorem renderBar_cells:
  assumes "0 \<le> percent" and "percent \<le> 100"
  shows "renderBar L percent col =
           concat (replicate (nat \<lceil>of_int percent * 25 / 100 :: rat\<rceil>) (colorize L col BLOCK_CHAR2)
                   @ replicate (25 - nat \<lceil>of_int percent * 25 / 100 :: rat\<rceil>) (chalk_white L BLOCK_CHAR))
         \<and> length (replicate (nat \<lceil>of_int percent * 25 / 100 :: rat\<rceil>) (colorize L col BLOCK_CHAR2)
                   @ replicate (25 - nat \<lceil>of_int percent * 25 / 100 :: rat\<rceil>) (chalk_white L BLOCK_CHAR)) = 25"
proof -
  let ?k = "nat \<lceil>of_int percent * 25 / 100 :: rat\<rceil>"
  have k: "?k \<le> 25" by (rule ceiling_quarter_le [OF assms(2)])
  have "renderBar L percent col =
      concat (map (\<lambda>i. if i < ?k then colorize L col BLOCK_CHAR2 else chalk_white L BLOCK_CHAR) [0..<25])"
    by (simp only: renderBar_def Let_def less_bar_width BAR_LENGTH_def)
  also have "\<dots> = concat (replicate (min ?k 25) (colorize L col BLOCK_CHAR2)
                   @ replicate (25 - ?k) (chalk_white L BLOCK_CHAR))"
    by (simp only: map_if_less)
  finally show ?thesis using k by (simp add: min_def)
qed

theorem renderBar_cells_witness:
  "(0::int) \<le> 50 \<and> (50::int) \<le> 100
   \<and> renderBar ansi_terminal 50 ''green'' =
        concat (replicate 13 (sgr ''32'' ''39'' BLOCK_CHAR2) @ replicate 12 (sgr ''37'' ''39'' BLOCK_CHAR))"
proof -
  have k: "nat \<lceil>of_int 50 * 25 / 100 :: rat\<rceil> = 13" unfolding ceiling_quarter by simp
  have c: "colorize ansi_terminal ''green'' = sgr ''32'' ''39''"
    by (simp add: colorize_def ansi_terminal_def)
  have w: "chalk_white ansi_terminal = sgr ''37'' ''39''"
    by (simp add: ansi_terminal_def)
  show ?thesis
    using renderBar_cells [of 50 ansi_terminal "''green''"] by (simp only: k c w) simp
qed

text \<open>
  The claim as it was stated fails at 1 percent: \<open>floor(1 * 25 / 100) = 0\<close>, and the bar
  starts with a green cell, so it is not 25 white cells.
\<close>

theorem renderBar_floor_counterexample:
  "renderBar ansi_terminal 1 ''green'' \<noteq>
     concat (replicate (nat \<lfloor>of_int 1 * 25 / 100 :: rat\<rfloor>) (colorize ansi_terminal ''green'' BLOCK_CHAR2)
             @ replicate (25 - nat \<lfloor>of_int 1 * 25 / 100 :: rat\<rfloor>) (chalk_white ansi_terminal BLOCK_CHAR))"
proof -
  have f: "nat \<lfloor>of_int 1 * 25 / 100 :: rat\<rfloor> = 0" by simp
  have "take 6 (renderBar ansi_terminal 1 ''green'') = [CHR 0x1B] @ ''[32m'' @ [CHR 0xE2]"
    by (simp add: renderBar_def Let_def bar_width_def BAR_LENGTH_def upt_rec [of 0]
        colorize_def ansi_terminal_def sgr_def BLOCK_CHAR2_def BLOCK_CHAR_def)
  moreover have "take 6 (concat (replicate (25 - 0) (chalk_white ansi_terminal BLOCK_CHAR)))
       = [CHR 0x1B] @ ''[37m'' @ [CHR 0xE2]"
    by (simp add: ansi_terminal_def sgr_def BLOCK_CHAR_def numeral_eq_Suc)
  ultimately show ?thesis unfolding f by auto
qed

lemma count_true_less:
  "length (filter (\<lambda>b. b) (map (\<lambda>i. i < k) [0..<n])) = min k n"
  by (induction n) (auto simp: min_def)

lemma foreground_count_eq: "foreground_count p = min (nat \<lceil>of_int p * 25 / 100 :: rat\<rceil>) 25"
  by (simp only: foreground_count_def bar_cells_def less_bar_width count_true_less BAR_LENGTH_def)

text \<open>The bar is its cells, styled: \<open>foreground_count\<close> counts the cells of \<open>renderBar\<close>.\<close>

lemma renderBar_bar_cells:
  "renderBar L p col =
     concat (map (\<lambda>b. if b then colorize L col BLOCK_CHAR2 else chalk_white L BLOCK_CHAR) (bar_cells p))"
  by (simp add: renderBar_def bar_cells_def Let_def comp_def)

text \<open>
  Claim C8. For every colour and every percent, the bar that \<open>renderBar\<close> returns is
  \<open>foreground_count percent\<close> cells in the foreground colour followed by white cells, 25
  cells in all. At 0 percent no cell is a foreground cell and the bar is 25 white cells;
  at 100 percent all 25 cells are foreground cells; and for percents \<open>p1 \<le> p2\<close> between
  0 and 100 the bar at \<open>p1\<close> has at most as many foreground cells as the bar at \<open>p2\<close>.
\<close>

theorem renderBar_foreground_monotone:
  "renderBar L p col =
      concat (replicate (foreground_count p) (colorize L col BLOCK_CHAR2)
              @ replicate (25 - foreground_count p) (chalk_white L BLOCK_CHAR))
   \<and> foreground_count p \<le> 25
   \<and> foreground_count 0 = 0
   \<and> renderBar L 0 col = concat (replicate 25 (chalk_white L BLOCK_CHAR))
   \<and> foreground_count 100 = 25
   \<and> renderBar L 100 col = concat (replicate 25 (colorize L col BLOCK_CHAR2))
   \<and> (\<forall>p1 p2. 0 \<le> p1 \<and> p1 \<le> p2 \<and> p2 \<le> 100 \<longrightarrow> foreground_count p1 \<le> foreground_count p2)"
proof -
  have bar: "renderBar L q col =
      concat (replicate (foreground_count q) (colorize L col BLOCK_CHAR2)
              @ replicate (25 - foreground_count q) (chalk_white L BLOCK_CHAR))" for q
  proof -
    let ?k = "nat \<lceil>of_int q * 25 / 100 :: rat\<rceil>"
    have "renderBar L q col =
        concat (map (\<lambda>i. if i < ?k then colorize L col BLOCK_CHAR2 else chalk_white L BLOCK_CHAR)
                  [0..<25])"
      by (simp only: renderBar_def Let_def less_bar_width BAR_LENGTH_def)
    also have "\<dots> = concat (replicate (min ?k 25) (colorize L col BLOCK_CHAR2)
                     @ replicate (25 - ?k) (chalk_white L BLOCK_CHAR))"
      by (simp only: map_if_less)
    also have "25 - ?k = 25 - min ?k 25" by simp
    finally show ?thesis by (simp only: foreground_count_eq)
  qed
  have zero: "foreground_count 0 = 0" by (simp add: foreground_count_eq)
  have full: "foreground_count 100 = 25" by (simp add: foreground_count_eq)
  have mono: "foreground_count p1 \<le> foreground_count p2" if "0 \<le> p1 \<and> p1 \<le> p2 \<and> p2 \<le> 100"
    for p1 p2 :: int
  proof -
    from that have "(of_int p1 :: rat) * 25 / 100 \<le> of_int p2 * 25 / 100" by simp
    then have "\<lceil>of_int p1 * 25 / 100 :: rat\<rceil> \<le> \<lceil>of_int p2 * 25 / 100 :: rat\<rceil>"
      by (rule ceiling_mono)
    then show ?thesis
      unfolding foreground_count_eq by (simp add: nat_mono min.coboundedI1)
  qed
  have "renderBar L 0 col = concat (replicate 25 (chalk_white L BLOCK_CHAR))"
    using bar [of 0] by (simp add: zero)
  moreover have "renderBar L 100 col = concat (replicate 25 (colorize L col BLOCK_CHAR2))"
    using bar [of 100] by (simp add: full)
  moreover have "foreground_count p \<le> 25" by (simp add: foreground_count_eq)
  ultimately show ?thesis using bar [of p] zero full mono by blast
qed

theorem renderBar_foreground_monotone_witness:
  "(0::int) \<le> 10 \<and> (10::int) \<le> 50 \<and> (50::int) \<le> 100
   \<and> renderBar ansi_terminal 10 ''green'' =
        concat (replicate 3 (sgr ''32'' ''39'' BLOCK_CHAR2) @ replicate 22 (sgr ''37'' ''39'' BLOCK_CHAR))
   \<and> renderBar ansi_terminal 50 ''green'' =
        concat (replicate 13 (sgr ''32'' ''39'' BLOCK_CHAR2) @ replicate 12 (sgr ''37'' ''39'' BLOCK_CHAR))
   \<and> foreground_count 10 \<le> foreground_count 50"
proof -
  have a: "foreground_count 10 = 3" unfolding foreground_count_eq ceiling_quarter by simp
  have b: "foreground_count 50 = 13" unfolding foreground_count_eq ceiling_quarter by simp
  have c: "colorize ansi_terminal ''green'' = sgr ''32'' ''39''"
    by (simp add: colorize_def ansi_terminal_def)
  have w: "chalk_white ansi_terminal = sgr ''37'' ''39''"
    by (simp add: ansi_terminal_def)
  have "renderBar ansi_terminal 10 ''green'' =
        concat (replicate 3 (sgr ''32'' ''39'' BLOCK_CHAR2) @ replicate 22 (sgr ''37'' ''39'' BLOCK_CHAR))"
    using renderBar_foreground_monotone [of ansi_terminal 10 "''green''"]
    by (simp only: a c w) simp
  moreover have "renderBar ansi_terminal 50 ''green'' =
        concat (replicate 13 (sgr ''32'' ''39'' BLOCK_CHAR2) @ replicate 12 (sgr ''37'' ''39'' BLOCK_CHAR))"
    using renderBar_foreground_monotone [of ansi_terminal 50 "''green''"]
    by (simp only: b c w) simp
  moreover have "foreground_count 10 \<le> foreground_count 50"
    using renderBar_foreground_monotone [of ansi_terminal 10 "''green''"] by simp
  ultimately show ?thesis by simp
qed

section \<open>The completion check\<close>

lemma ran_lookup: "set (map (\<lambda>e. the (map_of al e)) (map fst al)) = ran (map_of al)"
proof -
  have "set (map (\<lambda>e. the (map_of al e)) (map fst al)) = (\<lambda>e. the (map_of al e)) ` dom (map_of al)"
    by (simp add: dom_map_of_conv_image_fst image_image)
  also have "\<dots> = ran (map_of al)"
    by (auto simp: ran_def dom_def image_iff) force
  finally show ?thesis .
qed

text \<open>\<open>hasRunning()\<close> is \<open>undefined\<close> exactly when no slot of the shared state is running.\<close>

lemma hasRunning_None_iff:
  "hasRunning sh = None \<longleftrightarrow> (\<forall>k s. map_of (slots sh) k = Some s \<longrightarrow> \<not> get_isRunning sh s)"
  unfolding hasRunning_def find_None_iff ran_lookup by (auto simp: ran_def)

lemma get_isRunning_cong:
  assumes "isRunning (object_prototype sh') = isRunning (object_prototype sh)"
  shows "get_isRunning sh' st = get_isRunning sh st"
  using assms by (simp add: get_isRunning_def split: option.splits)

text \<open>Writing \<open>stats\<close> changes no \<open>isRunning\<close>, so it changes the answer of no slot.\<close>

lemma set_stats_running:
  assumes "set_stats n ws sh = Some sh'"
  shows "(\<forall>k s. map_of (slots sh') k = Some s \<longrightarrow> \<not> get_isRunning sh' s)
       \<longleftrightarrow> (\<forall>k s. map_of (slots sh) k = Some s \<longrightarrow> \<not> get_isRunning sh s)"
proof (cases "map_of (slots sh) n")
  case (Some st)
  with assms have sh': "sh' = sh\<lparr>slots := AList.update n (st\<lparr>stats := Some ws\<rparr>) (slots sh)\<rparr>"
    by (simp add: set_stats_def)
  have g: "get_isRunning sh' x = get_isRunning sh x" for x :: slot
    by (rule get_isRunning_cong) (simp add: sh' object_prototype_def inherited_object_def)
  have u: "get_isRunning sh (st\<lparr>stats := Some ws\<rparr>) = get_isRunning sh st"
    by (simp add: get_isRunning_def)
  have "map_of (slots sh') = (map_of (slots sh))(n \<mapsto> st\<lparr>stats := Some ws\<rparr>)"
    by (simp add: sh' update_conv')
  then show ?thesis
    using Some u by (auto simp: g split: if_splits)
next
  case None
  with assms have p: "n \<in> set prototype_names"
    and sh': "sh' = sh\<lparr>inherited :=
        AList.update n ((inherited_object sh n)\<lparr>stats := Some ws\<rparr>) (inherited sh)\<rparr>"
    by (auto simp: set_stats_def split: if_splits)
  have "isRunning (object_prototype sh') = isRunning (object_prototype sh)"
    by (simp add: sh' object_prototype_def inherited_object_def update_conv')
  then have g: "get_isRunning sh' x = get_isRunning sh x" for x :: slot
    by (rule get_isRunning_cong)
  have "slots sh' = slots sh" by (simp add: sh')
  then show ?thesis by (simp add: g)
qed

lemma hook_cases:
  assumes "set_stats (name opts) ws sh = Some sh'"
  shows "hook L opts ws sh =
     (if \<forall>k s. map_of (slots sh) k = Some s \<longrightarrow> \<not> get_isRunning sh s
      then (sh', LogUpdateClear # fst (plugin_done L opts sh'), snd (plugin_done L opts sh'))
      else (sh', [], None))"
  using assms set_stats_running [OF assms]
  by (simp add: hook_def hasRunning_None_iff split: prod.splits)

text \<open>
  Claim C1. In whatever shared state a sequence of progress events leaves behind, and
  for the \<open>done\<close> hook of whichever plugin: while some slot of the shared state has
  \<open>isRunning = true\<close>, the hook has no effect at all; it stores the statistics and
  neither clears the output nor calls \<open>done\<close>, so no report is written and the user's
  callback is not called. When no slot of the shared state is running, the hook clears
  the output and runs \<open>done\<close>. So the finished bundle's hook does not complete while
  the slot of another bundle is running, in whichever order the slots were made, and
  completion runs only when no slot is running. A slot of the shared state is an own
  property of \<open>sharedState\<close>: a bundle named after a property of \<open>Object.prototype\<close>
  gets none (\<open>inherited_name_no_slot\<close> below) and is not looked at.
\<close>

theorem completion_waits_for_running_slot:
  "((\<exists>k s. map_of (slots sh) k = Some s \<and> get_isRunning sh s) \<longrightarrow>
       fst (snd (hook L opts ws sh)) = []
       \<and> (\<forall>sh'. set_stats (name opts) ws sh = Some sh' \<longrightarrow> hook L opts ws sh = (sh', [], None)))
   \<and> ((\<forall>k s. map_of (slots sh) k = Some s \<longrightarrow> \<not> get_isRunning sh s) \<longrightarrow>
       (\<forall>sh'. set_stats (name opts) ws sh = Some sh' \<longrightarrow>
          hook L opts ws sh =
            (sh', LogUpdateClear # fst (plugin_done L opts sh'), snd (plugin_done L opts sh'))))
   \<and> (fst (snd (hook L opts ws sh)) \<noteq> [] \<longrightarrow>
       (\<forall>k s. map_of (slots sh) k = Some s \<longrightarrow> \<not> get_isRunning sh s))"
proof -
  have quiet: "fst (snd (hook L opts ws sh)) = []"
    if "\<exists>k s. map_of (slots sh) k = Some s \<and> get_isRunning sh s"
  proof (cases "set_stats (name opts) ws sh")
    case None
    then show ?thesis by (simp add: hook_def)
  next
    case (Some sh')
    with that show ?thesis by (auto simp: hook_cases [OF Some])
  qed
  have stored: "hook L opts ws sh = (sh', [], None)"
    if "\<exists>k s. map_of (slots sh) k = Some s \<and> get_isRunning sh s"
      and "set_stats (name opts) ws sh = Some sh'" for sh'
    using that(1) by (auto simp: hook_cases [OF that(2)])
  have fires: "hook L opts ws sh =
            (sh', LogUpdateClear # fst (plugin_done L opts sh'), snd (plugin_done L opts sh'))"
    if "\<forall>k s. map_of (slots sh) k = Some s \<longrightarrow> \<not> get_isRunning sh s"
      and "set_stats (name opts) ws sh = Some sh'" for sh'
    using that(1) by (simp add: hook_cases [OF that(2)])
  from quiet stored fires show ?thesis by blast
qed

text \<open>
  The two bundles, with the slot of the server made first: the state when the client
  has reached 100% and the server 50%, and the state when the server is at 100% too.
\<close>

lemma server_running_state:
  "state_after ansi_terminal (two_bundle_events client_options server_options)
     (construct client_options (construct server_options sharedState0)) =
   \<lparr>slots =
      [(''server'',
        \<lparr>isRunning = Some True, details = Some [], progress = Some 50,
         msg = Some ''building'', request = Some \<lparr>req_file = None, loaders = []\<rparr>,
         start = Some (0, 500), stats = None, slot_color = ''orange'', slot_profile = None\<rparr>),
       (''client'',
        \<lparr>isRunning = Some False, details = Some [], progress = Some 100, msg = Some [],
         request = Some \<lparr>req_file = None, loaders = []\<rparr>, start = None, stats = None,
         slot_color = ''green'', slot_profile = None\<rparr>)],
    inherited = []\<rparr>"
  by code_simp

lemma both_finished_state:
  "state_after ansi_terminal
     (two_bundle_events client_options server_options @ [Progress server_options (3, 0) 1 [] []])
     (construct client_options (construct server_options sharedState0)) =
   \<lparr>slots =
      [(''server'',
        \<lparr>isRunning = Some False, details = Some [], progress = Some 100, msg = Some [],
         request = Some \<lparr>req_file = None, loaders = []\<rparr>, start = None, stats = None,
         slot_color = ''orange'', slot_profile = None\<rparr>),
       (''client'',
        \<lparr>isRunning = Some False, details = Some [], progress = Some 100, msg = Some [],
         request = Some \<lparr>req_file = None, loaders = []\<rparr>, start = None, stats = None,
         slot_color = ''green'', slot_profile = None\<rparr>)],
    inherited = []\<rparr>"
  by code_simp

theorem completion_waits_for_running_slot_witness:
  "running_in ''client''
     (state_after ansi_terminal (two_bundle_events client_options server_options)
        (construct client_options (construct server_options sharedState0))) = Some False
   \<and> running_in ''server''
     (state_after ansi_terminal (two_bundle_events client_options server_options)
        (construct client_options (construct server_options sharedState0))) = Some True
   \<and> snd (hook ansi_terminal client_options 7
        (state_after ansi_terminal (two_bundle_events client_options server_options)
           (construct client_options (construct server_options sharedState0)))) = ([], None)
   \<and> snd (hook ansi_terminal server_options 8
        (state_after ansi_terminal
           (two_bundle_events client_options server_options @ [Progress server_options (3, 0) 1 [] []])
           (construct client_options (construct server_options sharedState0))))
       = ([LogUpdateClear, DoneCallback], None)"
proof -
  let ?S = "state_after ansi_terminal (two_bundle_events client_options server_options)
              (construct client_options (construct server_options sharedState0))"
  let ?T = "state_after ansi_terminal
              (two_bundle_events client_options server_options @ [Progress server_options (3, 0) 1 [] []])
              (construct client_options (construct server_options sharedState0))"
  have r: "\<exists>k s. map_of (slots ?S) k = Some s \<and> get_isRunning ?S s"
    unfolding server_running_state
    by (rule exI [of _ "''server''"]) (simp add: get_isRunning_def)
  obtain S' where S': "set_stats (name client_options) 7 ?S = Some S'"
    unfolding server_running_state by (simp add: set_stats_def client_options_def)
  have 1: "snd (hook ansi_terminal client_options 7 ?S) = ([], None)"
    using completion_waits_for_running_slot [of ?S ansi_terminal client_options 7] r S' by simp
  have n: "\<forall>k s. map_of (slots ?T) k = Some s \<longrightarrow> \<not> get_isRunning ?T s"
    unfolding both_finished_state by (auto simp: get_isRunning_def split: if_splits)
  obtain T' where T': "set_stats (name server_options) 8 ?T = Some T'"
    and d: "plugin_done ansi_terminal server_options T' = ([DoneCallback], None)"
    unfolding both_finished_state
    by (simp add: set_stats_def server_options_def plugin_done_def)
  have 2: "snd (hook ansi_terminal server_options 8 ?T) = ([LogUpdateClear, DoneCallback], None)"
    using completion_waits_for_running_slot [of ?T ansi_terminal server_options 8] n T' d by simp
  have 3: "running_in ''client'' ?S = Some False" and 4: "running_in ''server'' ?S = Some True"
    unfolding server_running_state by (simp_all add: running_in_def get_isRunning_def)
  from 1 2 3 4 show ?thesis by simp
qed

text \<open>
  A plugin named after a property of \<open>Object.prototype\<close> gets no slot: \<open>this.state\<close> is
  the inherited object, \<open>updateProgress\<close> writes on it, and \<open>hasRunning\<close> does not see
  it. While the bundle \<open>constructor\<close> is at 50% the shared state has the slot of the
  client only, and the hook of the finished client completes.
\<close>

lemma inherited_name_no_slot:
  "name opts \<in> set prototype_names \<Longrightarrow> construct opts sh = sh"
  by (simp add: construct_def)

lemma inherited_name_not_seen:
  "running_in ''constructor''
     (state_after ansi_terminal (two_bundle_events client_options constructor_options)
        (construct constructor_options (construct client_options sharedState0))) = Some True
   \<and> map fst (slots
        (state_after ansi_terminal (two_bundle_events client_options constructor_options)
           (construct constructor_options (construct client_options sharedState0)))) = [''client'']
   \<and> snd (hook ansi_terminal client_options 7
        (state_after ansi_terminal (two_bundle_events client_options constructor_options)
           (construct constructor_options (construct client_options sharedState0))))
       = ([LogUpdateClear, DoneCallback], None)"
  by code_simp

section \<open>The state machine of a slot\<close>

lemma transition_isRunning:
  "transition L opts now since was running st = (st', effs) \<Longrightarrow> isRunning st' = isRunning st"
  by (auto simp: transition_def Let_def split: if_splits)

lemma transition_profile:
  "transition L opts now since was running st = (st', effs) \<Longrightarrow> slot_profile st' = slot_profile st"
  by (auto simp: transition_def Let_def split: if_splits)

lemma transition_started:
  "transition L opts now since was running st = (st', effs) \<Longrightarrow>
   length (filter is_started effs) = (if \<not> was \<and> running \<and> minimal opts then 1 else 0)"
  by (auto simp: transition_def Let_def split: if_splits)

lemma transition_finished:
  "transition L opts now since was running st = (st', effs) \<Longrightarrow>
   length (filter is_finished effs)
     = (if was \<and> \<not> running \<and> (minimal opts \<or> compiledIn opts) then 1 else 0)"
  by (auto simp: transition_def Let_def split: if_splits)

lemma get_isRunning_own: "isRunning st = Some b \<Longrightarrow> get_isRunning sh st = b"
  by (simp add: get_isRunning_def)

text \<open>
  One progress event of a plugin whose \<open>this.state\<close> exists, and which has an
  accumulator when profiling is on: the call raises nothing, the plugin runs afterwards
  exactly when the progress is below 100, and \<open>consola\<close> is told of a start or an end
  only on the matching edge.
\<close>

lemma step_summary:
  assumes "running_in (name opts) sh = Some was"
    and "profile opts \<longrightarrow> (\<exists>st reqs. map_of (slots sh) (name opts) = Some st \<and> slot_profile st = Some reqs)"
  obtains sh' effs where
    "updateProgress L opts now p m d sh = (sh', effs, None)"
    "running_in (name opts) sh' = Some (\<lfloor>p * 100\<rfloor> < 100)"
    "profile opts \<longrightarrow> (\<exists>st reqs. map_of (slots sh') (name opts) = Some st \<and> slot_profile st = Some reqs)"
    "length (filter is_started effs)
       = (if \<not> was \<and> \<lfloor>p * 100\<rfloor> < 100 \<and> minimal opts then 1 else 0)"
    "length (filter is_finished effs)
       = (if was \<and> \<not> \<lfloor>p * 100\<rfloor> < 100 \<and> (minimal opts \<or> compiledIn opts) then 1 else 0)"
proof -
  let ?n = "name opts"
  let ?run = "\<lfloor>p * 100\<rfloor> < 100"
  obtain req where req: "parseRequest (process_cwd L) (nth_js d 2) = Inr req"
    using parseRequest_total by blast
  show thesis
  proof (cases "map_of (slots sh) ?n")
    case (Some st)
    with assms(1) have was: "was = get_isRunning sh st"
      by (simp add: running_in_def)
    define st1 where "st1 = assign_progress \<lfloor>p * 100\<rfloor> m d req st"
    obtain st2 effs where tr: "transition L opts now (get_start sh st1) was ?run st1 = (st2, effs)"
      by (cases "transition L opts now (get_start sh st1) was ?run st1") blast
    have run2: "isRunning st2 = Some ?run"
      using transition_isRunning [OF tr] by (simp add: st1_def assign_progress_def)
    have prof2: "slot_profile st2 = slot_profile st"
      using transition_profile [OF tr] by (simp add: st1_def assign_progress_def)
    note started = transition_started [OF tr] and finished = transition_finished [OF tr]
    show thesis
    proof (cases "profile opts")
      case False
      let ?sh' = "sh\<lparr>slots := AList.update ?n st2 (slots sh)\<rparr>"
      have u: "updateProgress L opts now p m d sh = (?sh', effs @ [Render], None)"
        using Some req tr False by (simp add: updateProgress_def Let_def st1_def was)
      have "running_in ?n ?sh' = Some ?run"
        by (simp add: running_in_def update_conv' get_isRunning_own [OF run2])
      then show thesis
        using that [of ?sh' "effs @ [Render]"] u started finished False by simp
    next
      case True
      with assms(2) Some prof2 obtain reqs where reqs: "slot_profile st2 = Some reqs" by auto
      let ?st3 = "st2\<lparr>slot_profile := Some (reqs @ [req])\<rparr>"
      let ?sh' = "sh\<lparr>slots := AList.update ?n ?st3 (slots sh)\<rparr>"
      have u: "updateProgress L opts now p m d sh = (?sh', effs @ [Render], None)"
        using Some req tr True reqs by (simp add: updateProgress_def Let_def st1_def was)
      have run3: "isRunning ?st3 = Some ?run" using run2 by simp
      have "running_in ?n ?sh' = Some ?run"
        by (simp add: running_in_def update_conv' get_isRunning_own [OF run3])
      moreover have "\<exists>st reqs. map_of (slots ?sh') ?n = Some st \<and> slot_profile st = Some reqs"
        by (simp add: update_conv')
      ultimately show thesis
        using that [of ?sh' "effs @ [Render]"] u started finished by simp
    qed
  next
    case None
    with assms(1) have inh: "?n \<in> set prototype_names"
      and was: "was = get_isRunning sh (inherited_object sh ?n)"
      by (auto simp: running_in_def split: if_splits)
    from None assms(2) have noprof: "\<not> profile opts" by auto
    define obj1 where "obj1 = assign_progress \<lfloor>p * 100\<rfloor> m d req (inherited_object sh ?n)"
    obtain obj2 effs where tr: "transition L opts now (get_start sh obj1) was ?run obj1 = (obj2, effs)"
      by (cases "transition L opts now (get_start sh obj1) was ?run obj1") blast
    have run2: "isRunning obj2 = Some ?run"
      using transition_isRunning [OF tr] by (simp add: obj1_def assign_progress_def)
    note started = transition_started [OF tr] and finished = transition_finished [OF tr]
    let ?sh' = "sh\<lparr>inherited := AList.update ?n obj2 (inherited sh)\<rparr>"
    have u: "updateProgress L opts now p m d sh = (?sh', effs @ [Render], None)"
      using None inh req tr noprof by (simp add: updateProgress_def Let_def obj1_def was)
    have "running_in ?n ?sh' = Some ?run"
      using None inh
      by (simp add: running_in_def inherited_object_def update_conv' get_isRunning_own [OF run2])
    then show thesis
      using that [of ?sh' "effs @ [Render]"] u started finished noprof by simp
  qed
qed

lemma init_running: "name opts \<notin> set prototype_names \<or> \<not> profile opts \<Longrightarrow>
  running_in (name opts) (construct opts sharedState0) = Some False
  \<and> (profile opts \<longrightarrow> (\<exists>st reqs. map_of (slots (construct opts sharedState0)) (name opts) = Some st
        \<and> slot_profile st = Some reqs))"
  by (auto simp: construct_def sharedState0_def running_in_def get_isRunning_def
      inherited_object_def object_prototype_def no_props_def)

text \<open>
  A plugin that is named after a property of \<open>Object.prototype\<close> and has profiling on
  has no accumulator: its first event raises.
\<close>

lemma inherited_profile_raises:
  assumes "name opts \<in> set prototype_names" and "profile opts"
  shows "snd (snd (updateProgress L opts now p m d (construct opts sharedState0))) = Some TypeError"
proof -
  obtain req where req: "parseRequest (process_cwd L) (nth_js d 2) = Inr req"
    using parseRequest_total by blast
  show ?thesis
    using assms req
    by (simp add: updateProgress_def construct_def sharedState0_def Let_def split: prod.splits)
qed

text \<open>
  Claim C5, amended. The events 0.0, 0.3, 0.6 and 1.0 on one slot, from the state the
  constructor leaves: \<open>isRunning\<close> is false at first, true after each of the first three
  events and false after the last, so it turns true once (on 0.0) and false once (on
  1.0), and no call raises. In minimal mode \<open>consola\<close> gets one "started" notification,
  on 0.0, and one "finished" notification, on 1.0. Outside minimal mode there is no
  "started" notification at all, and the one "finished" notification on 1.0 is sent only
  when \<open>compiledIn\<close> is set. The same holds of a plugin that has no slot because its
  name is inherited from \<open>Object.prototype\<close>, unless profiling is on: then the first
  event raises.
\<close>

theorem single_slot_lifecycle:
  "let outs = steps L [Progress opts t0 0 m0 d0, Progress opts t1 (3 / 10) m1 d1,
                       Progress opts t2 (6 / 10) m2 d2, Progress opts t3 1 m3 d3]
               (construct opts sharedState0)
   in if name opts \<in> set prototype_names \<and> profile opts
      then map (\<lambda>out. snd (snd out)) outs = [Some TypeError]
      else running_in (name opts) (construct opts sharedState0) = Some False
         \<and> map (\<lambda>out. running_in (name opts) (fst out)) outs
             = [Some True, Some True, Some True, Some False]
         \<and> map (\<lambda>out. snd (snd out)) outs = [None, None, None, None]
         \<and> map (\<lambda>out. length (filter is_started (fst (snd out)))) outs
             = [if minimal opts then 1 else 0, 0, 0, 0]
         \<and> map (\<lambda>out. length (filter is_finished (fst (snd out)))) outs
             = [0, 0, 0, if minimal opts \<or> compiledIn opts then 1 else 0]"
proof (cases "name opts \<in> set prototype_names \<and> profile opts")
  case True
  then have "snd (snd (updateProgress L opts t0 0 m0 d0 (construct opts sharedState0))) = Some TypeError"
    using inherited_profile_raises by blast
  then have "map (\<lambda>out. snd (snd out))
      (steps L [Progress opts t0 0 m0 d0, Progress opts t1 (3 / 10) m1 d1,
                Progress opts t2 (6 / 10) m2 d2, Progress opts t3 1 m3 d3]
         (construct opts sharedState0)) = [Some TypeError]"
    by (cases "updateProgress L opts t0 0 m0 d0 (construct opts sharedState0)") simp
  with True show ?thesis by (simp add: Let_def del: steps.simps)
next
  case False
  let ?n = "name opts"
  define sh0 where "sh0 = construct opts sharedState0"
  have r0: "running_in ?n sh0 = Some False"
    and p0: "profile opts \<longrightarrow> (\<exists>st reqs. map_of (slots sh0) ?n = Some st \<and> slot_profile st = Some reqs)"
    using init_running [of opts] False unfolding sh0_def by blast+
  obtain sh1 e1 where u1: "updateProgress L opts t0 0 m0 d0 sh0 = (sh1, e1, None)"
    and r1: "running_in ?n sh1 = Some True"
    and p1: "profile opts \<longrightarrow> (\<exists>st reqs. map_of (slots sh1) ?n = Some st \<and> slot_profile st = Some reqs)"
    and s1: "length (filter is_started e1) = (if minimal opts then 1 else 0)"
    and f1: "length (filter is_finished e1) = 0"
    using step_summary [OF r0 p0, of L t0 0 m0 d0] by simp blast
  obtain sh2 e2 where u2: "updateProgress L opts t1 (3 / 10) m1 d1 sh1 = (sh2, e2, None)"
    and r2: "running_in ?n sh2 = Some True"
    and p2: "profile opts \<longrightarrow> (\<exists>st reqs. map_of (slots sh2) ?n = Some st \<and> slot_profile st = Some reqs)"
    and s2: "length (filter is_started e2) = 0"
    and f2: "length (filter is_finished e2) = 0"
    using step_summary [OF r1 p1, of L t1 "3 / 10" m1 d1] by simp blast
  obtain sh3 e3 where u3: "updateProgress L opts t2 (6 / 10) m2 d2 sh2 = (sh3, e3, None)"
    and r3: "running_in ?n sh3 = Some True"
    and p3: "profile opts \<longrightarrow> (\<exists>st reqs. map_of (slots sh3) ?n = Some st \<and> slot_profile st = Some reqs)"
    and s3: "length (filter is_started e3) = 0"
    and f3: "length (filter is_finished e3) = 0"
    using step_summary [OF r2 p2, of L t2 "6 / 10" m2 d2] by simp blast
  obtain sh4 e4 where u4: "updateProgress L opts t3 1 m3 d3 sh3 = (sh4, e4, None)"
    and r4: "running_in ?n sh4 = Some False"
    and s4: "length (filter is_started e4) = 0"
    and f4: "length (filter is_finished e4) = (if minimal opts \<or> compiledIn opts then 1 else 0)"
    using step_summary [OF r3 p3, of L t3 1 m3 d3] by simp blast
  have outs: "steps L [Progress opts t0 0 m0 d0, Progress opts t1 (3 / 10) m1 d1,
                       Progress opts t2 (6 / 10) m2 d2, Progress opts t3 1 m3 d3] sh0
      = [(sh1, e1, None), (sh2, e2, None), (sh3, e3, None), (sh4, e4, None)]"
    by (simp only: steps.simps u1 u2 u3 u4 prod.case option.case)
  show ?thesis
    unfolding Let_def sh0_def [symmetric] outs
    using False r0 r1 r2 r3 r4 s1 s2 s3 s4 f1 f2 f3 f4
    by simp
qed

theorem single_slot_lifecycle_witness:
  "map (\<lambda>out. running_in ''client'' (fst out))
       (steps ansi_terminal (lifecycle_events client_options) (construct client_options sharedState0))
     = [Some True, Some True, Some True, Some False]
   \<and> map (\<lambda>out. length (filter is_started (fst (snd out))))
       (steps ansi_terminal (lifecycle_events client_options) (construct client_options sharedState0))
     = [0, 0, 0, 0]
   \<and> map (\<lambda>out. length (filter is_finished (fst (snd out))))
       (steps ansi_terminal (lifecycle_events client_options) (construct client_options sharedState0))
     = [0, 0, 0, 1]"
proof -
  have n: "\<not> (name client_options \<in> set prototype_names \<and> profile client_options)"
    by (simp add: client_options_def)
  show ?thesis
    using single_slot_lifecycle [of ansi_terminal client_options "(0, 0)" "''compiling''" "[]"
        "(1, 0)" "''building''" "[]" "(2, 0)" "''building''" "[]" "(3, 0)" "[]" "[]"]
    unfolding Let_def if_not_P [OF n]
    by (simp add: lifecycle_events_def client_options_def)
qed

text \<open>
  The claim as it was stated fails where \<open>minimal\<close> is off: over the four events the
  number of "started" notifications is not one.
\<close>

theorem started_notification_counterexample:
  "length (filter is_started
     (effects_of (steps ansi_terminal (lifecycle_events client_options)
        (construct client_options sharedState0)))) \<noteq> 1"
  by code_simp

section \<open>A repeated 100% event\<close>

lemma lifecycle_state:
  "state_after ansi_terminal (lifecycle_events client_options) (construct client_options sharedState0) =
   \<lparr>slots =
      [(''client'',
        \<lparr>isRunning = Some False, details = Some [], progress = Some 100, msg = Some [],
         request = Some \<lparr>req_file = None, loaders = []\<rparr>, start = None, stats = None,
         slot_color = ''green'', slot_profile = None\<rparr>)],
    inherited = []\<rparr>"
  by code_simp

lemma parse_sample:
  "parseRequest ''/home/user/project'' (JString ''css-loader!/home/user/project/src/a.css?x'')
     = Inr \<lparr>req_file = Some ''src/a.css'', loaders = [''css-loader'']\<rparr>"
  by code_simp

text \<open>
  Claim C6. On a slot that is not running, a progress event with percent 1.0 takes
  neither branch of the transition: \<open>start\<close> and \<open>stats\<close> stay as they are (no start
  time is taken or deleted, no elapsed time is computed), \<open>isRunning\<close> is false, and
  the only effect is the call of the throttled render, so \<open>consola\<close> is told nothing and
  the output is not cleared. The display fields are overwritten all the same:
  \<open>progress\<close> is 100, \<open>msg\<close> is the empty string (the message of an event at 100% is
  dropped), \<open>details\<close> is the array of the event and \<open>request\<close> is the parse of its third
  entry, which the accumulator receives when profiling is on. Only when profiling is on
  and the slot has no accumulator does the call end in a \<open>TypeError\<close>, after the fields
  are written and before the render.
\<close>

theorem duplicate_completion_event:
  assumes "map_of (slots sh) (name opts) = Some st" and "\<not> get_isRunning sh st"
    and "parseRequest (process_cwd L) (nth_js dets 2) = Inr req"
  shows "let st' = st\<lparr>details := Some dets, progress := Some 100, msg := Some [],
                       request := Some req, isRunning := Some False,
                       slot_profile := (if profile opts
                                        then map_option (\<lambda>reqs. reqs @ [req]) (slot_profile st)
                                        else slot_profile st)\<rparr>
         in updateProgress L opts now 1 message dets sh =
              (sh\<lparr>slots := AList.update (name opts) st' (slots sh)\<rparr>,
               (if profile opts \<and> slot_profile st = None then [] else [Render]),
               (if profile opts \<and> slot_profile st = None then Some TypeError else None))
          \<and> isRunning st' = Some False \<and> start st' = start st \<and> stats st' = stats st"
proof -
  have t: "transition L opts now since False False s = (s, [])" for s :: slot and since
    by (simp add: transition_def)
  show ?thesis
  proof (cases "profile opts")
    case False
    then show ?thesis
      using assms by (simp add: updateProgress_def Let_def t assign_progress_def)
  next
    case True
    show ?thesis
    proof (cases "slot_profile st")
      case None
      with True show ?thesis
        using assms
        by (simp add: updateProgress_def Let_def t assign_progress_def) (cases st, simp)
    next
      case (Some reqs)
      with True show ?thesis
        using assms by (simp add: updateProgress_def Let_def t assign_progress_def)
    qed
  qed
qed

theorem duplicate_completion_event_witness:
  "updateProgress ansi_terminal client_options (4, 0) 1 ''done''
     [''1/1'', ''modules'', ''css-loader!/home/user/project/src/a.css?x'']
     (state_after ansi_terminal (lifecycle_events client_options) (construct client_options sharedState0))
   = (\<lparr>slots =
         [(''client'',
           \<lparr>isRunning = Some False,
            details = Some [''1/1'', ''modules'', ''css-loader!/home/user/project/src/a.css?x''],
            progress = Some 100, msg = Some [],
            request = Some \<lparr>req_file = Some ''src/a.css'', loaders = [''css-loader'']\<rparr>,
            start = None, stats = None, slot_color = ''green'', slot_profile = None\<rparr>)],
       inherited = []\<rparr>,
      [Render], None)"
proof -
  let ?S = "state_after ansi_terminal (lifecycle_events client_options)
              (construct client_options sharedState0)"
  let ?st = "\<lparr>isRunning = Some False, details = Some [], progress = Some 100, msg = Some [],
      request = Some \<lparr>req_file = None, loaders = []\<rparr>, start = None, stats = None,
      slot_color = ''green'', slot_profile = None\<rparr>"
  have m: "map_of (slots ?S) (name client_options) = Some ?st"
    unfolding lifecycle_state by (simp add: client_options_def)
  have r: "\<not> get_isRunning ?S ?st" by (simp add: get_isRunning_def)
  have p: "parseRequest (process_cwd ansi_terminal)
             (nth_js [''1/1'', ''modules'', ''css-loader!/home/user/project/src/a.css?x''] 2)
           = Inr \<lparr>req_file = Some ''src/a.css'', loaders = [''css-loader'']\<rparr>"
    using parse_sample by (simp add: nth_js_def ansi_terminal_def)
  have "updateProgress ansi_terminal client_options (4, 0) 1 ''done''
     [''1/1'', ''modules'', ''css-loader!/home/user/project/src/a.css?x''] ?S
     = (?S\<lparr>slots := AList.update (name client_options)
         (?st\<lparr>details := Some [''1/1'', ''modules'', ''css-loader!/home/user/project/src/a.css?x''],
              progress := Some 100, msg := Some [],
              request := Some \<lparr>req_file = Some ''src/a.css'', loaders = [''css-loader'']\<rparr>\<rparr>)
         (slots ?S)\<rparr>,
        [Render], None)"
    using duplicate_completion_event [OF m r p, of "(4, 0)" "''done''"]
    by (simp add: Let_def client_options_def)
  then show ?thesis
    unfolding lifecycle_state by (simp add: client_options_def)
qed

section \<open>Where the code departs from its description\<close>

text \<open>
  Claim C2. For \<open>a-loader!b-loader!path/to/node_modules/pkg/file.js?query\<close> the parser
  should return the loaders \<open>a-loader\<close> and \<open>b-loader\<close> and the file \<open>pkg/file.js\<close>,
  the part behind the last \<open>node_modules\<close> segment. The loaders and the removal of the
  query are as claimed, but the prefix is searched with \<open>path.delimiter\<close>, the separator
  of the entries of \<open>PATH\<close>, in place of the separator of path segments: the text
  \<open>:node_modules:\<close> does not occur in the path, and the file keeps its whole prefix.
\<close>

theorem parseRequest_node_modules_kept:
  "nodeModules = '':node_modules:''
   \<and> parseRequest ''/home/user/project''
        (JString ''a-loader!b-loader!path/to/node_modules/pkg/file.js?query'')
     = Inr \<lparr>req_file = Some ''path/to/node_modules/pkg/file.js'',
             loaders = [''a-loader'', ''b-loader'']\<rparr>"
  by code_simp

text \<open>
  Claim C3. For an item whose count is zero the formatter should show a placeholder in
  the column of the average time. The count column has such a guard (\<open>stat.count || '-'\<close>),
  the average has none: both components of the time are divided by the count, and
  \<open>pretty-time\<close> is handed the pair of \<open>NaN\<close> that \<open>0 / 0\<close> gives.
\<close>

theorem formatStats_zero_count:
  "category_data L ''loader'' [(''x'', \<lparr>count = 0, time = (0, 0)\<rparr>)] =
     [[Text (startCase L ''loader''), Text ''Requests'', Text ''Time'', Text ''Time/Request'',
       Text ''Description''],
      [Text ''x'', Text ''-'', Text (prettyTime L (Num 0, Num 0) None),
       Text (prettyTime L (NaN, NaN) None), Text (getDescription L ''loader'' ''x'')],
      [Text ''Total'', Count 0, Text (prettyTime L (Num 0, Num 0) None), Text [], Text []]]
   \<and> formatStats L [(''loader'', [(''x'', \<lparr>count = 0, time = (0, 0)\<rparr>)])] =
       ''Stats by '' @ chalk_bold L (startCase L ''loader'') @ [CHR 0x0A, CHR 0x0A]
       @ table L (category_data L ''loader'' [(''x'', \<lparr>count = 0, time = (0, 0)\<rparr>)])"
  by (simp add: category_data_def item_row_def time_cell_def js_div_def formatStats_def Let_def)

end
